theory Spec2Isabelle
  imports Complex_Main
begin

section \<open>Health clock: the work/rest timer of src/app/page.tsx\<close>

text \<open>
  The component \<open>HealthClock\<close> keeps its engine state in React state variables and
  refs, changes it in event handlers, and reacts to changes in effects. The model is a
  state record, one function per handler, one function per effect, and a function that
  runs the effects of a commit the way React does: each effect reads the values of the
  render it was created in, and runs when one of its dependencies differs from the
  previous render. Time is counted in whole seconds. Saving the settings (lines 71-77),
  the audio objects (lines 80-179) and \<open>stopAllAudio\<close> (lines 231-261) read and write none
  of the engine state and are left out; a call of \<open>playReminder\<close> is recorded as a
  notification.
\<close>

subsection \<open>Settings\<close>

datatype TimerState = Idle | Working | Resting

datatype TimeUnit = Hours | Minutes | Seconds

datatype DialogType = DWork | DRest

record TimerSettings =
  workDuration :: int
  workUnit :: TimeUnit
  restDuration :: int
  restUnit :: TimeUnit
  workReminders :: int
  restReminders :: int

text \<open>The initial value of the \<open>settings\<close> state (lines 26-33).\<close>

definition defaultSettings :: TimerSettings where
  "defaultSettings =
     \<lparr>workDuration = 25, workUnit = Minutes, restDuration = 5, restUnit = Minutes,
      workReminders = 3, restReminders = 3\<rparr>"

text \<open>\<open>convertToSeconds\<close> (lines 181-192).\<close>

fun convertToSeconds :: "int \<Rightarrow> TimeUnit \<Rightarrow> int" where
  "convertToSeconds duration Hours = duration * 3600"
| "convertToSeconds duration Minutes = duration * 60"
| "convertToSeconds duration Seconds = duration"

subsection \<open>The reminder inputs of the settings panel\<close>

text \<open>
  \<open>Number.parseInt\<close> yields either \<open>NaN\<close> or an integer-valued number; the model takes
  its result as \<open>None\<close> (for \<open>NaN\<close>) or \<open>Some n\<close>. \<open>x || d\<close> on such a value is \<open>d\<close>
  when \<open>x\<close> is \<open>NaN\<close> or \<open>0\<close>.
\<close>

definition orNum :: "int option \<Rightarrow> int \<Rightarrow> int" where
  "orNum p d = (case p of None \<Rightarrow> d | Some n \<Rightarrow> if n = 0 then d else n)"

text \<open>The \<open>onChange\<close> handlers of the two reminder inputs (lines 567-571, 595-599):
  \<open>Math.max(1, Math.min(100, Number.parseInt(e.target.value) || 1))\<close>.\<close>

definition clampReminders :: "int option \<Rightarrow> int" where
  "clampReminders p = max 1 (min 100 (orNum p 1))"


definition onRestRemindersInput :: "int option \<Rightarrow> TimerSettings \<Rightarrow> TimerSettings" where
  "onRestRemindersInput p prev = prev\<lparr>restReminders := clampReminders p\<rparr>"

text \<open>The \<open>onChange\<close> handlers of the two duration inputs (lines 501-503, 530-532):
  \<open>Number.parseInt(e.target.value) || 0\<close>.\<close>

definition onWorkDurationInput :: "int option \<Rightarrow> TimerSettings \<Rightarrow> TimerSettings" where
  "onWorkDurationInput p prev = prev\<lparr>workDuration := orNum p 0\<rparr>"

definition onRestDurationInput :: "int option \<Rightarrow> TimerSettings \<Rightarrow> TimerSettings" where
  "onRestDurationInput p prev = prev\<lparr>restDuration := orNum p 0\<rparr>"

subsection \<open>Engine state\<close>

text \<open>
  One notification is one call of \<open>playReminder\<close>: the time of the call in seconds, the
  cue it plays (\<open>playWorkEnd\<close> when the \<open>timerState\<close> it read is \<open>working\<close>, else
  \<open>playRestEnd\<close>) and the call site: the first reminder of the expiry effect (line 347)
  or the repeat inside \<open>playNextReminder\<close> (line 362).
\<close>

datatype Sound = WorkEnd | RestEnd

datatype Site = First | Repeat

type_synonym Notification = "nat \<times> Sound \<times> Site"

text \<open>
  A pending timeout of the reminder loop. \<open>Dispatch\<close> is a pending
  \<open>setTimeout(playNextReminder, _)\<close>; \<open>Resume\<close> is the pending
  \<open>await new Promise((resolve) => setTimeout(resolve, 15000))\<close> inside
  \<open>playNextReminder\<close>, after which the rest of the function runs. Each carries what the
  closure of its expiry effect holds: \<open>maxReminders\<close>, the variable \<open>currentCount\<close>, and the
  values of \<open>showDialog\<close> and \<open>timerState\<close> of the render the effect was created in.
\<close>

datatype Stage = Dispatch | Resume

record Task =
  handle :: nat
  due :: nat
  stage :: Stage
  maxReminders :: int
  currentCount :: int
  shownThen :: bool
  stateThen :: TimerState

text \<open>
  The state variables of the component (lines 26-41), the two timer refs (lines 45-46;
  \<open>intervalOn\<close> says that \<open>intervalRef\<close> holds a live one-second interval), the pending
  timeouts, the next timer handle, the time in seconds and the notifications so far.
\<close>

record Engine =
  settings :: TimerSettings
  timerState :: TimerState
  timeLeft :: int
  isRunning :: bool
  showDialog :: bool
  dialogType :: DialogType
  reminderCount :: int
  showSettings :: bool
  intervalOn :: bool
  reminderIntervalRef :: "nat option"
  timers :: "Task list"
  nextHandle :: nat
  now :: nat
  played :: "Notification list"

text \<open>The component as mounted with the settings \<open>st\<close>. Timer handles start at 1.\<close>

definition initial :: "TimerSettings \<Rightarrow> Engine" where
  "initial st =
     \<lparr>settings = st, timerState = Idle, timeLeft = 0, isRunning = False,
      showDialog = False, dialogType = DWork, reminderCount = 0, showSettings = True,
      intervalOn = False, reminderIntervalRef = None, timers = [], nextHandle = 1,
      now = 0, played = []\<rparr>"

subsection \<open>Timers and the notifier\<close>

text \<open>\<open>clearInterval(h)\<close>: the pending timeout with that handle, if any, is dropped.\<close>

definition clearTimer :: "nat \<Rightarrow> Engine \<Rightarrow> Engine" where
  "clearTimer h s = s\<lparr>timers := filter (\<lambda>t. handle t \<noteq> h) (timers s)\<rparr>"

text \<open>\<open>if (reminderIntervalRef.current) clearInterval(reminderIntervalRef.current)\<close>
  (line 227). A handle is a positive number, so a handle in the ref passes the test.\<close>

definition clearReminder :: "Engine \<Rightarrow> Engine" where
  "clearReminder s =
     (case reminderIntervalRef s of None \<Rightarrow> s | Some h \<Rightarrow> clearTimer h s)"

text \<open>The same, followed by \<open>reminderIntervalRef.current = null\<close>
  (lines 281-284, 311-314, 386-389).\<close>

definition dropReminder :: "Engine \<Rightarrow> Engine" where
  "dropReminder s =
     (case reminderIntervalRef s of
        None \<Rightarrow> s
      | Some h \<Rightarrow> (clearTimer h s)\<lparr>reminderIntervalRef := None\<rparr>)"

text \<open>\<open>setTimeout\<close> with a delay in seconds; the new task takes the next handle.\<close>

definition newTask :: "Stage \<Rightarrow> nat \<Rightarrow> int \<Rightarrow> int \<Rightarrow> bool \<Rightarrow> TimerState \<Rightarrow> Engine \<Rightarrow> Task" where
  "newTask g delay m c sh ts s =
     \<lparr>handle = nextHandle s, due = now s + delay, stage = g, maxReminders = m,
      currentCount = c, shownThen = sh, stateThen = ts\<rparr>"

definition addTask :: "Task \<Rightarrow> Engine \<Rightarrow> Engine" where
  "addTask t s = s\<lparr>timers := timers s @ [t], nextHandle := nextHandle s + 1\<rparr>"

text \<open>\<open>reminderIntervalRef.current = setTimeout(playNextReminder, delay)\<close>
  (lines 366, 377).\<close>

definition armReminder :: "nat \<Rightarrow> int \<Rightarrow> int \<Rightarrow> bool \<Rightarrow> TimerState \<Rightarrow> Engine \<Rightarrow> Engine" where
  "armReminder delay m c sh ts s =
     (addTask (newTask Dispatch delay m c sh ts s) s)\<lparr>reminderIntervalRef := Some (nextHandle s)\<rparr>"

text \<open>\<open>playReminder\<close> (lines 263-274), called from a closure that read \<open>timerState = ts\<close>.\<close>

definition playReminder :: "TimerState \<Rightarrow> Site \<Rightarrow> Engine \<Rightarrow> Engine" where
  "playReminder ts k s =
     s\<lparr>played := played s @ [(now s, if ts = Working then WorkEnd else RestEnd, k)]\<rparr>"

subsection \<open>Handlers\<close>

text \<open>\<open>startTimer\<close> (lines 205-213).\<close>

definition startTimer :: "Engine \<Rightarrow> Engine" where
  "startTimer s =
     (let s1 = (if timerState s = Idle
                then s\<lparr>timeLeft := convertToSeconds (workDuration (settings s)) (workUnit (settings s)),
                       timerState := Working, showSettings := False\<rparr>
                else s)
      in s1\<lparr>isRunning := True\<rparr>)"

text \<open>\<open>pauseTimer\<close> (lines 215-217).\<close>

definition pauseTimer :: "Engine \<Rightarrow> Engine" where
  "pauseTimer s = s\<lparr>isRunning := False\<rparr>"

text \<open>\<open>resetTimer\<close> (lines 219-229).\<close>

definition resetTimer :: "Engine \<Rightarrow> Engine" where
  "resetTimer s =
     clearReminder
       (s\<lparr>isRunning := False, timerState := Idle, timeLeft := 0, showDialog := False,
          reminderCount := 0, showSettings := True, intervalOn := False\<rparr>)"

text \<open>\<open>handleDialogAction\<close> (lines 276-303): the button of the reminder dialog.\<close>

definition handleDialogAction :: "Engine \<Rightarrow> Engine" where
  "handleDialogAction s =
     (let s1 = dropReminder (s\<lparr>showDialog := False, reminderCount := 0\<rparr>);
          s2 = (if dialogType s = DWork
                then s1\<lparr>timeLeft := convertToSeconds (restDuration (settings s)) (restUnit (settings s)),
                        timerState := Resting\<rparr>
                else s1\<lparr>timeLeft := convertToSeconds (workDuration (settings s)) (workUnit (settings s)),
                        timerState := Working\<rparr>)
      in s2\<lparr>isRunning := True\<rparr>)"

text \<open>\<open>handleDialogClose\<close> (lines 305-318): the dialog is closed without its button.\<close>

definition handleDialogClose :: "Engine \<Rightarrow> Engine" where
  "handleDialogClose s =
     dropReminder (s\<lparr>showDialog := False, reminderCount := 0, isRunning := False\<rparr>)"

subsection \<open>Effects\<close>

text \<open>
  Each effect takes the render \<open>r\<close> whose values its closure reads and the state \<open>s\<close> it
  acts on. The main timer (lines 321-333): the interval of the previous render is
  cleared, and a new one is set when the render is running with time left.
\<close>

definition mainTimerEffect :: "Engine \<Rightarrow> Engine \<Rightarrow> Engine" where
  "mainTimerEffect r s = s\<lparr>intervalOn := (isRunning r \<and> 0 < timeLeft r)\<rparr>"

text \<open>The expiry effect (lines 336-380) up to the definition of \<open>playNextReminder\<close>,
  and the start of the repeat loop (lines 376-378).\<close>

definition expiryEffect :: "Engine \<Rightarrow> Engine \<Rightarrow> Engine" where
  "expiryEffect r s =
     (if timeLeft r = 0 \<and> timerState r \<noteq> Idle
      then
        (let s1 = s\<lparr>isRunning := False,
                     dialogType := (if timerState r = Working then DWork else DRest),
                     showDialog := True, reminderCount := 0\<rparr>;
             m = (if timerState r = Working then workReminders (settings r)
                  else restReminders (settings r));
             s2 = playReminder (timerState r) First s1
         in if 1 < m then armReminder 15 m 0 (showDialog r) (timerState r) s2 else s2)
      else s)"

text \<open>The dialog watcher (lines 383-392).\<close>

definition dialogEffect :: "Engine \<Rightarrow> Engine \<Rightarrow> Engine" where
  "dialogEffect r s = (if \<not> showDialog r then dropReminder s else s)"

text \<open>
  One commit: the effects run in the order they are declared, each only when one of its
  dependencies differs between the previous render \<open>p\<close> and the render \<open>r\<close>. \<open>chg\<close> says
  that \<open>setSettings\<close> was called: it stores a new object every time, so \<open>settings\<close> counts
  as changed even when its fields are the same.
\<close>

definition commit :: "Engine \<Rightarrow> bool \<Rightarrow> Engine \<Rightarrow> Engine \<Rightarrow> Engine" where
  "commit p chg r s =
     (let s1 = (if isRunning p \<noteq> isRunning r \<or> timeLeft p \<noteq> timeLeft r
                then mainTimerEffect r s else s);
          s2 = (if timeLeft p \<noteq> timeLeft r \<or> timerState p \<noteq> timerState r \<or> chg
                then expiryEffect r s1 else s1);
          s3 = (if showDialog p \<noteq> showDialog r then dialogEffect r s2 else s2)
      in s3)"

text \<open>
  After a handler turned the render \<open>p\<close> into \<open>s\<close>: the commit of \<open>s\<close>, then the commit of
  the render that the state updates of the effects cause.
\<close>

definition settle :: "Engine \<Rightarrow> bool \<Rightarrow> Engine \<Rightarrow> Engine" where
  "settle p chg s = (let s1 = commit p chg s s in commit s False s1 s1)"

subsection \<open>The reminder loop\<close>

text \<open>
  \<open>playNextReminder\<close> (lines 351-373) in its two halves: from its call to the
  \<open>await\<close> of 15 seconds (\<open>Dispatch\<close>), and from there to its end (\<open>Resume\<close>).
  \<open>showDialog\<close> is the value the closure holds.
\<close>

definition fire :: "Task \<Rightarrow> Engine \<Rightarrow> Engine" where
  "fire t s =
     (case stage t of
        Dispatch \<Rightarrow>
          (if currentCount t < maxReminders t - 1 \<and> shownThen t
           then addTask (newTask Resume 15 (maxReminders t) (currentCount t + 1)
                           (shownThen t) (stateThen t) s)
                  (s\<lparr>reminderCount := currentCount t + 1\<rparr>)
           else s)
      | Resume \<Rightarrow>
          (if shownThen t
           then (let s1 = playReminder (stateThen t) Repeat s
                 in if currentCount t < maxReminders t - 1
                    then armReminder 0 (maxReminders t) (currentCount t) (shownThen t)
                           (stateThen t) s1
                    else s1)
           else s))"

text \<open>A timeout that is still pending runs once and is gone.\<close>

definition fireTask :: "Engine \<Rightarrow> Task \<Rightarrow> Engine" where
  "fireTask s t =
     (if handle t \<in> set (map handle (timers s)) then fire t (clearTimer (handle t) s) else s)"

text \<open>The timeouts that are due run in the order they were set.\<close>

definition fireDue :: "Engine \<Rightarrow> Engine" where
  "fireDue s = foldl fireTask s (filter (\<lambda>t. due t \<le> now s) (timers s))"

subsection \<open>Events\<close>

text \<open>A handler is called on the current render, and the effects follow.\<close>

definition start :: "Engine \<Rightarrow> Engine" where
  "start s = settle s False (startTimer s)"

definition pause :: "Engine \<Rightarrow> Engine" where
  "pause s = settle s False (pauseTimer s)"

definition reset :: "Engine \<Rightarrow> Engine" where
  "reset s = settle s False (resetTimer s)"

definition acknowledge :: "Engine \<Rightarrow> Engine" where
  "acknowledge s = settle s False (handleDialogAction s)"

definition dismiss :: "Engine \<Rightarrow> Engine" where
  "dismiss s = settle s False (handleDialogClose s)"

text \<open>A call of \<open>setSettings\<close> from the settings panel.\<close>

definition editSettings :: "(TimerSettings \<Rightarrow> TimerSettings) \<Rightarrow> Engine \<Rightarrow> Engine" where
  "editSettings f s = settle s True (s\<lparr>settings := f (settings s)\<rparr>)"

text \<open>The callback of the one-second interval (line 324), when the interval is set.\<close>

definition tick :: "Engine \<Rightarrow> Engine" where
  "tick s = (if intervalOn s then settle s False (s\<lparr>timeLeft := timeLeft s - 1\<rparr>) else s)"

text \<open>
  One second passes: the interval ticks, then the timeouts that are due run, and then
  those that they set with delay 0 (line 366).
\<close>

definition second :: "Engine \<Rightarrow> Engine" where
  "second s = fireDue (fireDue (tick (s\<lparr>now := now s + 1\<rparr>)))"

fun seconds :: "nat \<Rightarrow> Engine \<Rightarrow> Engine" where
  "seconds 0 s = s"
| "seconds (Suc n) s = seconds n (second s)"

text \<open>The user interface as a list of events, run from left to right.\<close>

datatype Event = Start | Pause | Reset | Acknowledge | Dismiss | Edit TimerSettings | Second

fun step :: "Engine \<Rightarrow> Event \<Rightarrow> Engine" where
  "step s Start = start s"
| "step s Pause = pause s"
| "step s Reset = reset s"
| "step s Acknowledge = acknowledge s"
| "step s Dismiss = dismiss s"
| "step s (Edit st) = editSettings (\<lambda>_. st) s"
| "step s Second = second s"

definition run :: "Event list \<Rightarrow> Engine \<Rightarrow> Engine" where
  "run es s = foldl step s es"

subsection \<open>Progress\<close>

text \<open>
  \<open>getProgressPercentage\<close> (lines 394-401). \<open>totalTime\<close> is its local constant. The
  division is exact here (JavaScript rounds to a double); a division by zero, which
  gives \<open>NaN\<close> or an infinity there, is \<open>None\<close>.
\<close>

definition totalTime :: "Engine \<Rightarrow> int" where
  "totalTime s =
     (if timerState s = Working
      then convertToSeconds (workDuration (settings s)) (workUnit (settings s))
      else convertToSeconds (restDuration (settings s)) (restUnit (settings s)))"

definition getProgressPercentage :: "Engine \<Rightarrow> rat option" where
  "getProgressPercentage s =
     (if timerState s = Idle then Some 0
      else if totalTime s = 0 then None
      else Some (of_int (totalTime s - timeLeft s) / of_int (totalTime s) * 100))"

subsection \<open>Loading the saved settings\<close>

text \<open>
  The values \<open>JSON.parse\<close> can return, and \<open>undefined\<close> for a property that is not
  there. Numbers are modelled at their integer values.
\<close>

datatype JSValue =
    JUndefined
  | JNull
  | JBool bool
  | JNum int
  | JStr string
  | JArr "JSValue list"
  | JObj "(string \<times> JSValue) list"

text \<open>What \<open>||\<close> tests: \<open>undefined\<close>, \<open>null\<close>, \<open>false\<close>, \<open>0\<close> and the empty string are
  falsy.\<close>

fun truthy :: "JSValue \<Rightarrow> bool" where
  "truthy JUndefined = False"
| "truthy JNull = False"
| "truthy (JBool b) = b"
| "truthy (JNum n) = (n \<noteq> 0)"
| "truthy (JStr s) = (s \<noteq> [])"
| "truthy (JArr _) = True"
| "truthy (JObj _) = True"

definition orDefault :: "JSValue \<Rightarrow> JSValue \<Rightarrow> JSValue" where
  "orDefault v d = (if truthy v then v else d)"

text \<open>
  Reading a settings property \<open>v.name\<close> of a value that is neither \<open>null\<close> nor
  \<open>undefined\<close>: in an object the last entry of that name, and \<open>undefined\<close> when there is
  none or the value is not an object.
\<close>

fun getProp :: "JSValue \<Rightarrow> string \<Rightarrow> JSValue" where
  "getProp (JObj kvs) name = (case map_of (rev kvs) name of None \<Rightarrow> JUndefined | Some v \<Rightarrow> v)"
| "getProp _ name = JUndefined"

text \<open>The initial \<open>settings\<close> object (lines 26-33) as a JavaScript value.\<close>

definition defaultFields :: "(string \<times> JSValue) list" where
  "defaultFields =
     [(''workDuration'', JNum 25), (''workUnit'', JStr ''minutes''),
      (''restDuration'', JNum 5), (''restUnit'', JStr ''minutes''),
      (''workReminders'', JNum 3), (''restReminders'', JNum 3)]"

definition defaultObject :: JSValue where
  "defaultObject = JObj defaultFields"

text \<open>
  What the load effect finds: no item (or an empty one), an item that makes
  \<open>localStorage.getItem\<close> or \<open>JSON.parse\<close> throw, or a parsed value.
\<close>

datatype Saved = Missing | Malformed | Parsed JSValue

text \<open>
  The load effect (lines 49-68): the \<open>settings\<close> object after it ran on a fresh
  component. Reading a property of \<open>null\<close> throws, and the \<open>catch\<close> leaves the settings
  as they are.
\<close>

fun loadSettings :: "Saved \<Rightarrow> JSValue" where
  "loadSettings Missing = defaultObject"
| "loadSettings Malformed = defaultObject"
| "loadSettings (Parsed JNull) = defaultObject"
| "loadSettings (Parsed JUndefined) = defaultObject"
| "loadSettings (Parsed v) =
     JObj [(''workDuration'', orDefault (getProp v ''workDuration'') (JNum 25)),
           (''workUnit'', orDefault (getProp v ''workUnit'') (JStr ''minutes'')),
           (''restDuration'', orDefault (getProp v ''restDuration'') (JNum 5)),
           (''restUnit'', orDefault (getProp v ''restUnit'') (JStr ''minutes'')),
           (''workReminders'', orDefault (getProp v ''workReminders'') (JNum 3)),
           (''restReminders'', orDefault (getProp v ''restReminders'') (JNum 3))]"

subsection \<open>States used in the proofs\<close>

text \<open>The work phase counting down with \<open>j\<close> seconds left at time \<open>t\<close>, after a start
  from the initial state.\<close>

definition counting :: "TimerSettings \<Rightarrow> int \<Rightarrow> nat \<Rightarrow> Engine" where
  "counting st j t =
     (initial st)\<lparr>timerState := Working, timeLeft := j, isRunning := True,
                  showSettings := False, intervalOn := True, now := t\<rparr>"

text \<open>The state right after that work phase expired at time \<open>t\<close>.\<close>

definition expired :: "TimerSettings \<Rightarrow> nat \<Rightarrow> Engine" where
  "expired st t =
     (let s = (initial st)\<lparr>timerState := Working, showDialog := True, showSettings := False,
                           now := t, played := [(t, WorkEnd, First)]\<rparr>
      in if 1 < workReminders st
         then s\<lparr>reminderIntervalRef := Some 1, nextHandle := 2,
                timers := [\<lparr>handle = 1, due = t + 15, stage = Dispatch,
                            maxReminders = workReminders st, currentCount = 0,
                            shownThen = False, stateThen = Working\<rparr>]\<rparr>
         else s)"

text \<open>No interval is set, and every pending timeout holds \<open>showDialog = false\<close>.\<close>

definition quiet :: "Engine \<Rightarrow> bool" where
  "quiet s = (\<not> intervalOn s \<and> list_all (\<lambda>t. \<not> shownThen t) (timers s))"

text \<open>A work phase of one second, and the state 15 seconds after the settings were
  edited while its reminder dialog was open.\<close>

definition shortWork :: TimerSettings where
  "shortWork = defaultSettings\<lparr>workDuration := 1, workUnit := Seconds\<rparr>"

definition editedWhileOpen :: Engine where
  "editedWhileOpen =
     seconds 15 (editSettings (onRestRemindersInput (Some 5)) (second (start (initial shortWork))))"

text \<open>The commit of the render \<open>r\<close> after \<open>p\<close> runs the expiry effect, and the effect finds the
  phase expired.\<close>

definition expiring :: "Engine \<Rightarrow> bool \<Rightarrow> Engine \<Rightarrow> bool" where
  "expiring p chg r =
     ((timeLeft p \<noteq> timeLeft r \<or> timerState p \<noteq> timerState r \<or> chg)
      \<and> timeLeft r = 0 \<and> timerState r \<noteq> Idle)"

text \<open>Settings with phases of no length.\<close>

definition noTime :: TimerSettings where
  "noTime = defaultSettings\<lparr>workDuration := 0, restDuration := 0\<rparr>"

text \<open>The number of times the expiry effect entered the reminder: the notifications of
  its call site.\<close>

definition entries :: "Engine \<Rightarrow> nat" where
  "entries s = length (filter (\<lambda>n. snd (snd n) = First) (played s))"

section \<open>Lemmas\<close>

subsection \<open>Running the countdown\<close>

lemmas effect_defs = commit_def settle_def mainTimerEffect_def expiryEffect_def dialogEffect_def
  dropReminder_def clearReminder_def clearTimer_def armReminder_def addTask_def newTask_def
  playReminder_def

lemma start_initial:
  "0 < convertToSeconds (workDuration st) (workUnit st) \<Longrightarrow>
   start (initial st) = counting st (convertToSeconds (workDuration st) (workUnit st)) 0"
  by (simp add: start_def startTimer_def initial_def counting_def effect_defs Let_def)

lemma start_initial_zero:
  "convertToSeconds (workDuration st) (workUnit st) = 0 \<Longrightarrow>
   start (initial st) = expired st 0"
  by (simp add: start_def startTimer_def initial_def expired_def effect_defs Let_def)

lemma second_counting:
  "1 < j \<Longrightarrow> second (counting st j t) = counting st (j - 1) (Suc t)"
  by (simp add: second_def tick_def initial_def counting_def effect_defs Let_def fireDue_def)

lemma second_counting_last:
  "second (counting st 1 t) = expired st (Suc t)"
  by (simp add: second_def tick_def initial_def counting_def expired_def effect_defs Let_def
      fireDue_def)

lemma seconds_counting:
  "int k < j \<Longrightarrow> seconds k (counting st j t) = counting st (j - int k) (t + k)"
proof (induction k arbitrary: j t)
  case 0
  then show ?case by simp
next
  case (Suc k)
  then have "1 < j" by simp
  moreover have "int k < j - 1" using Suc.prems by simp
  ultimately show ?case
    using Suc.IH [of "j - 1" "Suc t"] by (simp add: second_counting algebra_simps)
qed

lemma seconds_add: "seconds (a + b) s = seconds b (seconds a s)"
  by (induction a arbitrary: s) simp_all

lemma seconds_to_expiry:
  assumes "0 < j"
  shows "seconds (nat j) (counting st j t) = expired st (t + nat j)"
proof -
  obtain k where k: "nat j = Suc k" using assms by (cases "nat j") auto
  then have j: "j = int k + 1" using assms by linarith
  have "seconds (Suc k) (counting st j t) = second (seconds k (counting st j t))"
    using seconds_add [of k 1] by simp
  also have "seconds k (counting st j t) = counting st 1 (t + k)"
    using seconds_counting [of k j st t] j by simp
  finally show ?thesis using k by (simp add: second_counting_last)
qed

lemma start_to_expiry:
  assumes "0 \<le> convertToSeconds (workDuration st) (workUnit st)"
  shows "seconds (nat (convertToSeconds (workDuration st) (workUnit st))) (start (initial st))
         = expired st (nat (convertToSeconds (workDuration st) (workUnit st)))"
proof (cases "convertToSeconds (workDuration st) (workUnit st) = 0")
  case True
  then show ?thesis by (simp add: start_initial_zero)
next
  case False
  with assms have "0 < convertToSeconds (workDuration st) (workUnit st)" by simp
  then show ?thesis using seconds_to_expiry [of _ st 0] by (simp add: start_initial)
qed

subsection \<open>Timeouts whose closure holds a closed dialog\<close>

lemma fireTask_stale: "\<not> shownThen t \<Longrightarrow> fireTask s t = clearTimer (handle t) s"
proof (cases "handle t \<in> set (map handle (timers s))")
  case True
  assume "\<not> shownThen t"
  with True show ?thesis by (simp add: fireTask_def fire_def split: Stage.splits)
next
  case False
  then have "filter (\<lambda>u. handle u \<noteq> handle t) (timers s) = timers s"
    unfolding filter_id_conv by (metis imageI set_map)
  with False show ?thesis by (simp add: fireTask_def clearTimer_def)
qed

lemma foldl_fireTask_stale:
  "list_all (\<lambda>t. \<not> shownThen t) ts \<Longrightarrow>
   foldl fireTask s ts =
     s\<lparr>timers := filter (\<lambda>u. handle u \<notin> set (map handle ts)) (timers s)\<rparr>"
proof (induction ts arbitrary: s)
  case Nil
  then show ?case by simp
next
  case (Cons t ts)
  then show ?case
    by (simp add: fireTask_stale clearTimer_def conj_commute)
qed

lemma fireDue_stale:
  "list_all (\<lambda>t. \<not> shownThen t) (timers s) \<Longrightarrow>
   fireDue s =
     s\<lparr>timers := filter (\<lambda>u. handle u \<notin> set (map handle (filter (\<lambda>t. due t \<le> now s) (timers s))))
                    (timers s)\<rparr>"
  unfolding fireDue_def
  by (rule foldl_fireTask_stale) (simp add: list_all_iff)

lemma second_quiet:
  assumes "quiet s"
  shows "\<exists>xs. second s = s\<lparr>now := Suc (now s), timers := xs\<rparr> \<and> list_all (\<lambda>t. \<not> shownThen t) xs"
proof -
  let ?s1 = "s\<lparr>now := Suc (now s)\<rparr>"
  have t: "tick ?s1 = ?s1" using assms by (simp add: tick_def quiet_def)
  have a1: "list_all (\<lambda>t. \<not> shownThen t) (timers ?s1)" using assms by (simp add: quiet_def)
  let ?xs = "filter (\<lambda>u. handle u \<notin> set (map handle (filter (\<lambda>t. due t \<le> now ?s1) (timers ?s1))))
               (timers ?s1)"
  have f1: "fireDue ?s1 = ?s1\<lparr>timers := ?xs\<rparr>" using fireDue_stale [OF a1] .
  have a2: "list_all (\<lambda>t. \<not> shownThen t) (timers (?s1\<lparr>timers := ?xs\<rparr>))"
    using a1 by (simp add: list_all_iff)
  let ?s2 = "?s1\<lparr>timers := ?xs\<rparr>"
  let ?ys = "filter (\<lambda>u. handle u \<notin> set (map handle (filter (\<lambda>t. due t \<le> now ?s2) (timers ?s2))))
               (timers ?s2)"
  have f2: "fireDue ?s2 = ?s2\<lparr>timers := ?ys\<rparr>" using fireDue_stale [OF a2] .
  have "second s = ?s2\<lparr>timers := ?ys\<rparr>"
    by (simp only: second_def Suc_eq_plus1 [symmetric] t f1 f2)
  moreover have "list_all (\<lambda>t. \<not> shownThen t) ?ys" using a1 by (simp add: list_all_iff)
  ultimately show ?thesis by auto
qed

lemma seconds_quiet:
  "quiet s \<Longrightarrow>
   \<exists>xs. seconds k s = s\<lparr>now := now s + k, timers := xs\<rparr> \<and> list_all (\<lambda>t. \<not> shownThen t) xs"
proof (induction k arbitrary: s)
  case 0
  then have "seconds 0 s = s\<lparr>now := now s + 0, timers := timers s\<rparr>" by simp
  with 0 show ?case unfolding quiet_def by blast
next
  case (Suc k)
  from second_quiet [OF Suc.prems] obtain xs
    where xs: "second s = s\<lparr>now := Suc (now s), timers := xs\<rparr>" "list_all (\<lambda>t. \<not> shownThen t) xs"
    by blast
  have "quiet (second s)" using Suc.prems xs by (simp add: quiet_def)
  from Suc.IH [OF this] obtain ys
    where ys: "seconds k (second s) = (second s)\<lparr>now := now (second s) + k, timers := ys\<rparr>"
      "list_all (\<lambda>t. \<not> shownThen t) ys"
    by blast
  have "seconds (Suc k) s = s\<lparr>now := now s + Suc k, timers := ys\<rparr>"
    using xs(1) ys(1) by simp
  with ys(2) show ?case by blast
qed

lemma quiet_expired: "quiet (expired st t)"
  by (simp add: quiet_def expired_def initial_def Let_def)

lemma after_expiry:
  assumes "0 \<le> convertToSeconds (workDuration st) (workUnit st)"
  shows "\<exists>xs. seconds (nat (convertToSeconds (workDuration st) (workUnit st)) + k) (start (initial st))
           = (expired st (nat (convertToSeconds (workDuration st) (workUnit st))))
               \<lparr>now := nat (convertToSeconds (workDuration st) (workUnit st)) + k, timers := xs\<rparr>"
proof -
  let ?n = "nat (convertToSeconds (workDuration st) (workUnit st))"
  have n: "now (expired st ?n) = ?n" by (simp add: expired_def initial_def Let_def)
  from seconds_quiet [OF quiet_expired [of st ?n], of k] n
  obtain xs where "seconds k (expired st ?n) = (expired st ?n)\<lparr>now := ?n + k, timers := xs\<rparr>"
    by auto
  then show ?thesis
    using start_to_expiry [OF assms] by (auto simp: seconds_add)
qed

lemma shortWork_seconds: "convertToSeconds (workDuration shortWork) (workUnit shortWork) = 1"
  by (simp add: shortWork_def defaultSettings_def)

subsection \<open>The effects field by field\<close>

lemma dropReminder_fields:
  "timerState (dropReminder s) = timerState s"
  "timeLeft (dropReminder s) = timeLeft s"
  "isRunning (dropReminder s) = isRunning s"
  "showDialog (dropReminder s) = showDialog s"
  "dialogType (dropReminder s) = dialogType s"
  "reminderCount (dropReminder s) = reminderCount s"
  "settings (dropReminder s) = settings s"
  "intervalOn (dropReminder s) = intervalOn s"
  "now (dropReminder s) = now s"
  "played (dropReminder s) = played s"
  "reminderIntervalRef (dropReminder s) = None"
  by (simp_all add: dropReminder_def clearTimer_def split: option.splits)

lemma clearReminder_fields:
  "timerState (clearReminder s) = timerState s"
  "timeLeft (clearReminder s) = timeLeft s"
  "isRunning (clearReminder s) = isRunning s"
  "showDialog (clearReminder s) = showDialog s"
  "dialogType (clearReminder s) = dialogType s"
  "reminderCount (clearReminder s) = reminderCount s"
  "settings (clearReminder s) = settings s"
  "intervalOn (clearReminder s) = intervalOn s"
  "now (clearReminder s) = now s"
  "played (clearReminder s) = played s"
  by (simp_all add: clearReminder_def clearTimer_def split: option.splits)

lemma mainTimerEffect_fields:
  "timerState (mainTimerEffect r s) = timerState s"
  "timeLeft (mainTimerEffect r s) = timeLeft s"
  "isRunning (mainTimerEffect r s) = isRunning s"
  "showDialog (mainTimerEffect r s) = showDialog s"
  "dialogType (mainTimerEffect r s) = dialogType s"
  "reminderCount (mainTimerEffect r s) = reminderCount s"
  "settings (mainTimerEffect r s) = settings s"
  "now (mainTimerEffect r s) = now s"
  "played (mainTimerEffect r s) = played s"
  "intervalOn (mainTimerEffect r s) = (isRunning r \<and> 0 < timeLeft r)"
  by (simp_all add: mainTimerEffect_def)

lemma dialogEffect_fields:
  "timerState (dialogEffect r s) = timerState s"
  "timeLeft (dialogEffect r s) = timeLeft s"
  "isRunning (dialogEffect r s) = isRunning s"
  "showDialog (dialogEffect r s) = showDialog s"
  "dialogType (dialogEffect r s) = dialogType s"
  "reminderCount (dialogEffect r s) = reminderCount s"
  "settings (dialogEffect r s) = settings s"
  "intervalOn (dialogEffect r s) = intervalOn s"
  "now (dialogEffect r s) = now s"
  "played (dialogEffect r s) = played s"
  by (simp_all add: dialogEffect_def dropReminder_fields)

lemma expiryEffect_fields:
  "timerState (expiryEffect r s) = timerState s"
  "timeLeft (expiryEffect r s) = timeLeft s"
  "settings (expiryEffect r s) = settings s"
  "intervalOn (expiryEffect r s) = intervalOn s"
  "now (expiryEffect r s) = now s"
  "isRunning (expiryEffect r s) = (if timeLeft r = 0 \<and> timerState r \<noteq> Idle then False else isRunning s)"
  "showDialog (expiryEffect r s) = (if timeLeft r = 0 \<and> timerState r \<noteq> Idle then True else showDialog s)"
  "dialogType (expiryEffect r s) =
     (if timeLeft r = 0 \<and> timerState r \<noteq> Idle
      then (if timerState r = Working then DWork else DRest) else dialogType s)"
  "reminderCount (expiryEffect r s) = (if timeLeft r = 0 \<and> timerState r \<noteq> Idle then 0 else reminderCount s)"
  "played (expiryEffect r s) =
     (if timeLeft r = 0 \<and> timerState r \<noteq> Idle
      then played s @ [(now s, if timerState r = Working then WorkEnd else RestEnd, First)]
      else played s)"
  by (simp_all add: expiryEffect_def playReminder_def armReminder_def addTask_def Let_def)

lemma commit_fields:
  "timerState (commit p chg r s) = timerState s"
  "timeLeft (commit p chg r s) = timeLeft s"
  "settings (commit p chg r s) = settings s"
  "now (commit p chg r s) = now s"
  "isRunning (commit p chg r s) = (if expiring p chg r then False else isRunning s)"
  "showDialog (commit p chg r s) = (if expiring p chg r then True else showDialog s)"
  "dialogType (commit p chg r s) =
     (if expiring p chg r then (if timerState r = Working then DWork else DRest) else dialogType s)"
  "reminderCount (commit p chg r s) = (if expiring p chg r then 0 else reminderCount s)"
  "played (commit p chg r s) =
     (if expiring p chg r
      then played s @ [(now s, if timerState r = Working then WorkEnd else RestEnd, First)]
      else played s)"
  "intervalOn (commit p chg r s) =
     (if isRunning p \<noteq> isRunning r \<or> timeLeft p \<noteq> timeLeft r
      then isRunning r \<and> 0 < timeLeft r else intervalOn s)"
  by (auto simp add: commit_def Let_def expiring_def mainTimerEffect_fields dialogEffect_fields
      expiryEffect_fields)

lemma not_expiring_again: "\<not> expiring s False (commit p chg s s)"
  by (simp add: expiring_def commit_fields)

lemma settle_fields:
  "timerState (settle p chg s) = timerState s"
  "timeLeft (settle p chg s) = timeLeft s"
  "settings (settle p chg s) = settings s"
  "now (settle p chg s) = now s"
  "isRunning (settle p chg s) = (if expiring p chg s then False else isRunning s)"
  "showDialog (settle p chg s) = (if expiring p chg s then True else showDialog s)"
  "dialogType (settle p chg s) =
     (if expiring p chg s then (if timerState s = Working then DWork else DRest) else dialogType s)"
  "reminderCount (settle p chg s) = (if expiring p chg s then 0 else reminderCount s)"
  "played (settle p chg s) =
     (if expiring p chg s
      then played s @ [(now s, if timerState s = Working then WorkEnd else RestEnd, First)]
      else played s)"
  "intervalOn (settle p chg s) =
     (if expiring p chg s then (if isRunning s then False
                                else if isRunning p \<noteq> isRunning s \<or> timeLeft p \<noteq> timeLeft s
                                     then False else intervalOn s)
      else if isRunning p \<noteq> isRunning s \<or> timeLeft p \<noteq> timeLeft s
           then isRunning s \<and> 0 < timeLeft s else intervalOn s)"
  by (simp_all add: settle_def Let_def commit_fields not_expiring_again)

lemma settle_same: "settle s False s = s"
  by (simp add: settle_def commit_def Let_def)

lemma startTimer_fields:
  "timerState (startTimer s) = (if timerState s = Idle then Working else timerState s)"
  "timeLeft (startTimer s) =
     (if timerState s = Idle
      then convertToSeconds (workDuration (settings s)) (workUnit (settings s)) else timeLeft s)"
  "isRunning (startTimer s)"
  "showDialog (startTimer s) = showDialog s"
  "now (startTimer s) = now s"
  "played (startTimer s) = played s"
  by (simp_all add: startTimer_def Let_def)

lemma handleDialogAction_fields:
  "timerState (handleDialogAction s) = (if dialogType s = DWork then Resting else Working)"
  "timeLeft (handleDialogAction s) =
     (if dialogType s = DWork
      then convertToSeconds (restDuration (settings s)) (restUnit (settings s))
      else convertToSeconds (workDuration (settings s)) (workUnit (settings s)))"
  "isRunning (handleDialogAction s)"
  "\<not> showDialog (handleDialogAction s)"
  "reminderCount (handleDialogAction s) = 0"
  "reminderIntervalRef (handleDialogAction s) = None"
  "now (handleDialogAction s) = now s"
  "played (handleDialogAction s) = played s"
  by (simp_all add: handleDialogAction_def Let_def dropReminder_def clearTimer_def
      split: option.splits)

lemma pauseTimer_fields:
  "timerState (pauseTimer s) = timerState s"
  "showDialog (pauseTimer s) = showDialog s"
  by (simp_all add: pauseTimer_def)

lemma handleDialogClose_fields:
  "timerState (handleDialogClose s) = timerState s"
  "timeLeft (handleDialogClose s) = timeLeft s"
  "\<not> isRunning (handleDialogClose s)"
  "\<not> showDialog (handleDialogClose s)"
  by (simp_all add: handleDialogClose_def dropReminder_fields)

lemma resetTimer_fields:
  "timerState (resetTimer s) = Idle" "timeLeft (resetTimer s) = 0"
  "\<not> showDialog (resetTimer s)" "reminderCount (resetTimer s) = 0"
  "\<not> isRunning (resetTimer s)" "\<not> intervalOn (resetTimer s)"
  by (simp_all add: resetTimer_def clearReminder_fields)

lemma fire_fields:
  "timerState (fire t s) = timerState s"
  "showDialog (fire t s) = showDialog s"
  "timeLeft (fire t s) = timeLeft s"
  "settings (fire t s) = settings s"
  by (simp_all add: fire_def armReminder_def addTask_def playReminder_def Let_def
      split: Stage.splits)

lemma fireTask_fields:
  "timerState (fireTask s t) = timerState s"
  "showDialog (fireTask s t) = showDialog s"
  "timeLeft (fireTask s t) = timeLeft s"
  "settings (fireTask s t) = settings s"
  by (simp_all add: fireTask_def fire_fields clearTimer_def)

lemma foldl_fireTask_fields:
  "timerState (foldl fireTask s ts) = timerState s
   \<and> showDialog (foldl fireTask s ts) = showDialog s
   \<and> timeLeft (foldl fireTask s ts) = timeLeft s
   \<and> settings (foldl fireTask s ts) = settings s"
  by (induction ts arbitrary: s) (simp_all add: fireTask_fields)

lemma fireDue_fields:
  "timerState (fireDue s) = timerState s"
  "showDialog (fireDue s) = showDialog s"
  "timeLeft (fireDue s) = timeLeft s"
  "settings (fireDue s) = settings s"
  by (simp_all add: fireDue_def foldl_fireTask_fields)

lemma settle_keeps:
  "\<not> (showDialog s \<and> timerState s = Idle) \<Longrightarrow>
   \<not> (showDialog (settle p chg s) \<and> timerState (settle p chg s) = Idle)"
  by (simp add: settle_fields expiring_def)

lemma second_keeps:
  assumes "\<not> (showDialog s \<and> timerState s = Idle)"
  shows "\<not> (showDialog (second s) \<and> timerState (second s) = Idle)"
proof -
  have "\<not> (showDialog (tick (s\<lparr>now := now s + 1\<rparr>)) \<and> timerState (tick (s\<lparr>now := now s + 1\<rparr>)) = Idle)"
    using assms by (simp add: tick_def settle_fields expiring_def)
  then show ?thesis by (simp add: second_def fireDue_fields)
qed

lemma step_keeps:
  assumes "\<not> (showDialog s \<and> timerState s = Idle)"
  shows "\<not> (showDialog (step s e) \<and> timerState (step s e) = Idle)"
proof (cases e)
  case Start
  have "\<not> (showDialog (startTimer s) \<and> timerState (startTimer s) = Idle)"
    using assms by (simp add: startTimer_fields)
  then show ?thesis unfolding Start step.simps start_def by (rule settle_keeps)
next
  case Pause
  have "\<not> (showDialog (pauseTimer s) \<and> timerState (pauseTimer s) = Idle)"
    using assms by (simp add: pauseTimer_fields)
  then show ?thesis unfolding Pause step.simps pause_def by (rule settle_keeps)
next
  case Reset
  have "\<not> (showDialog (resetTimer s) \<and> timerState (resetTimer s) = Idle)"
    by (simp add: resetTimer_fields)
  then show ?thesis unfolding Reset step.simps reset_def by (rule settle_keeps)
next
  case Acknowledge
  have "\<not> (showDialog (handleDialogAction s) \<and> timerState (handleDialogAction s) = Idle)"
    by (simp add: handleDialogAction_fields)
  then show ?thesis unfolding Acknowledge step.simps acknowledge_def by (rule settle_keeps)
next
  case Dismiss
  have "\<not> (showDialog (handleDialogClose s) \<and> timerState (handleDialogClose s) = Idle)"
    by (simp add: handleDialogClose_fields)
  then show ?thesis unfolding Dismiss step.simps dismiss_def by (rule settle_keeps)
next
  case (Edit st)
  have "\<not> (showDialog (s\<lparr>settings := st\<rparr>) \<and> timerState (s\<lparr>settings := st\<rparr>) = Idle)"
    using assms by simp
  then show ?thesis unfolding Edit step.simps editSettings_def by (rule settle_keeps)
next
  case Second
  then show ?thesis using second_keeps [OF assms] by simp
qed

lemma foldl_step_keeps:
  "\<not> (showDialog s \<and> timerState s = Idle) \<Longrightarrow>
   \<not> (showDialog (foldl step s es) \<and> timerState (foldl step s es) = Idle)"
proof (induction es arbitrary: s)
  case Nil
  then show ?case by simp
next
  case (Cons e es)
  from Cons.IH [OF step_keeps [OF Cons.prems, of e]] show ?case by simp
qed

lemma dialog_closed_at_idle:
  "\<not> (showDialog (run es (initial st)) \<and> timerState (run es (initial st)) = Idle)"
  unfolding run_def by (rule foldl_step_keeps) (simp add: initial_def)

lemma pause_stopped:
  assumes "\<not> isRunning s"
  shows "pause s = s"
proof -
  have "pauseTimer s = s" using assms by (cases s) (simp add: pauseTimer_def)
  then show ?thesis by (simp add: pause_def settle_same)
qed

lemma dismiss_closed:
  assumes "\<not> isRunning s" and "\<not> showDialog s" and "reminderCount s = 0"
    and "reminderIntervalRef s = None"
  shows "dismiss s = s"
proof -
  have "handleDialogClose s = s"
    using assms by (cases s) (simp add: handleDialogClose_def dropReminder_def)
  then show ?thesis by (simp add: dismiss_def settle_same)
qed

subsection \<open>Entries of the reminder\<close>

lemma pauseTimer_more:
  "timeLeft (pauseTimer s) = timeLeft s"
  "played (pauseTimer s) = played s"
  by (simp_all add: pauseTimer_def)

lemma handleDialogClose_played: "played (handleDialogClose s) = played s"
  by (simp add: handleDialogClose_def dropReminder_fields)

lemma entries_clearTimer: "entries (clearTimer h s) = entries s"
  by (simp add: entries_def clearTimer_def)

lemma entries_fire: "entries (fire t s) = entries s"
  by (simp add: entries_def fire_def armReminder_def addTask_def newTask_def playReminder_def
      Let_def split: Stage.splits)

lemma entries_fireTask: "entries (fireTask s t) = entries s"
  by (simp add: fireTask_def entries_fire entries_clearTimer)

lemma entries_foldl_fireTask: "entries (foldl fireTask s ts) = entries s"
  by (induction ts arbitrary: s) (simp_all add: entries_fireTask)

lemma entries_fireDue: "entries (fireDue s) = entries s"
  by (simp add: fireDue_def entries_foldl_fireTask)

lemma played_tick_expired:
  assumes "timeLeft s = 0"
  shows "played (tick s) = played s"
proof (cases "intervalOn s")
  case True
  have "\<not> expiring s False (s\<lparr>timeLeft := timeLeft s - 1\<rparr>)"
    using assms by (simp add: expiring_def)
  then show ?thesis using True by (simp add: tick_def settle_fields)
next
  case False
  then show ?thesis by (simp add: tick_def)
qed

lemma entries_second_expired:
  assumes "timeLeft s = 0"
  shows "entries (second s) = entries s"
proof -
  have "played (tick (s\<lparr>now := now s + 1\<rparr>)) = played s"
    using played_tick_expired [of "s\<lparr>now := now s + 1\<rparr>"] assms by simp
  then have "entries (tick (s\<lparr>now := now s + 1\<rparr>)) = entries s" by (simp add: entries_def)
  then show ?thesis by (simp add: second_def entries_fireDue)
qed

lemma played_pause: "played (pause s) = played s"
proof -
  have "\<not> expiring s False (pauseTimer s)"
    by (simp add: expiring_def pauseTimer_fields pauseTimer_more)
  then show ?thesis by (simp add: pause_def settle_fields pauseTimer_more)
qed

lemma played_dismiss: "played (dismiss s) = played s"
proof -
  have "\<not> expiring s False (handleDialogClose s)"
    by (simp add: expiring_def handleDialogClose_fields)
  then show ?thesis by (simp add: dismiss_def settle_fields handleDialogClose_played)
qed

lemma played_start_running:
  assumes "timerState s \<noteq> Idle"
  shows "played (start s) = played s"
proof -
  have "\<not> expiring s False (startTimer s)"
    using assms by (simp add: expiring_def startTimer_fields)
  then show ?thesis by (simp add: start_def settle_fields startTimer_fields)
qed

lemma edit_enters_again:
  assumes "timeLeft s = 0" and "timerState s \<noteq> Idle"
  shows "timeLeft (editSettings f s) = 0"
    and "showDialog (editSettings f s)"
    and "played (editSettings f s)
           = played s @ [(now s, if timerState s = Working then WorkEnd else RestEnd, First)]"
proof -
  have e: "expiring s True (s\<lparr>settings := f (settings s)\<rparr>)"
    using assms by (simp add: expiring_def)
  show "timeLeft (editSettings f s) = 0" using assms by (simp add: editSettings_def settle_fields)
  show "showDialog (editSettings f s)" using e by (simp add: editSettings_def settle_fields)
  show "played (editSettings f s)
           = played s @ [(now s, if timerState s = Working then WorkEnd else RestEnd, First)]"
    using e by (simp add: editSettings_def settle_fields)
qed

subsection \<open>Loading\<close>

lemma loadSettings_value:
  "v \<noteq> JNull \<Longrightarrow> v \<noteq> JUndefined \<Longrightarrow>
   loadSettings (Parsed v) =
     JObj [(''workDuration'', orDefault (getProp v ''workDuration'') (JNum 25)),
           (''workUnit'', orDefault (getProp v ''workUnit'') (JStr ''minutes'')),
           (''restDuration'', orDefault (getProp v ''restDuration'') (JNum 5)),
           (''restUnit'', orDefault (getProp v ''restUnit'') (JStr ''minutes'')),
           (''workReminders'', orDefault (getProp v ''workReminders'') (JNum 3)),
           (''restReminders'', orDefault (getProp v ''restReminders'') (JNum 3))]"
  by (cases v) simp_all

lemma defaultFields_cases:
  assumes "(name, d) \<in> set defaultFields"
  shows "(name = ''workDuration'' \<and> d = JNum 25) \<or> (name = ''workUnit'' \<and> d = JStr ''minutes'')
         \<or> (name = ''restDuration'' \<and> d = JNum 5) \<or> (name = ''restUnit'' \<and> d = JStr ''minutes'')
         \<or> (name = ''workReminders'' \<and> d = JNum 3) \<or> (name = ''restReminders'' \<and> d = JNum 3)"
  using assms by (simp add: defaultFields_def)

lemma getProp_six:
  "getProp (JObj [(''workDuration'', a), (''workUnit'', b), (''restDuration'', c),
                  (''restUnit'', e), (''workReminders'', f), (''restReminders'', g)]) ''workDuration'' = a"
  "getProp (JObj [(''workDuration'', a), (''workUnit'', b), (''restDuration'', c),
                  (''restUnit'', e), (''workReminders'', f), (''restReminders'', g)]) ''workUnit'' = b"
  "getProp (JObj [(''workDuration'', a), (''workUnit'', b), (''restDuration'', c),
                  (''restUnit'', e), (''workReminders'', f), (''restReminders'', g)]) ''restDuration'' = c"
  "getProp (JObj [(''workDuration'', a), (''workUnit'', b), (''restDuration'', c),
                  (''restUnit'', e), (''workReminders'', f), (''restReminders'', g)]) ''restUnit'' = e"
  "getProp (JObj [(''workDuration'', a), (''workUnit'', b), (''restDuration'', c),
                  (''restUnit'', e), (''workReminders'', f), (''restReminders'', g)]) ''workReminders'' = f"
  "getProp (JObj [(''workDuration'', a), (''workUnit'', b), (''restDuration'', c),
                  (''restUnit'', e), (''workReminders'', f), (''restReminders'', g)]) ''restReminders'' = g"
  by simp_all

lemma default_field:
  assumes "(name, d) \<in> set defaultFields"
  shows "getProp defaultObject name = d" and "truthy d"
proof -
  note c = defaultFields_cases [OF assms]
  from c show "getProp defaultObject name = d"
    unfolding defaultObject_def defaultFields_def
    by (elim disjE conjE) (simp_all only: getProp_six)
  from c show "truthy d" by (elim disjE conjE) simp_all
qed

lemma loaded_field:
  assumes "(name, d) \<in> set defaultFields" and "v \<noteq> JNull" and "v \<noteq> JUndefined"
  shows "getProp (loadSettings (Parsed v)) name = orDefault (getProp v name) d"
  using defaultFields_cases [OF assms(1)]
  unfolding loadSettings_value [OF assms(2,3)]
  by (elim disjE conjE) (simp_all only: getProp_six)

section \<open>Properties\<close>

text \<open>
  C1. The claim: with reminder limit 3 and nobody answering, three notifications fire, at
  the expiry, 15 and 30 seconds later. With the default settings (25 minutes of work,
  3 reminders) the code plays the reminder once, at the expiry (second 1500): the list of
  notifications is the same 15, 30 and 45 seconds later. The timeout set at the expiry
  runs \<open>playNextReminder\<close>, whose test reads the \<open>showDialog\<close> of the render in which the
  phase expired, and that is \<open>false\<close>.
\<close>

theorem default_expiry_one_notification:
  "workReminders defaultSettings = 3
   \<and> played (seconds 1500 (start (initial defaultSettings))) = [(1500, WorkEnd, First)]
   \<and> played (seconds (1500 + 15) (start (initial defaultSettings))) = [(1500, WorkEnd, First)]
   \<and> played (seconds (1500 + 30) (start (initial defaultSettings))) = [(1500, WorkEnd, First)]
   \<and> played (seconds (1500 + 45) (start (initial defaultSettings))) = [(1500, WorkEnd, First)]"
proof -
  have n: "convertToSeconds (workDuration defaultSettings) (workUnit defaultSettings) = 1500"
    by (simp add: defaultSettings_def)
  have p: "played (seconds (1500 + k) (start (initial defaultSettings))) = [(1500, WorkEnd, First)]"
    for k
  proof -
    from after_expiry [of defaultSettings k] n obtain xs
      where eq: "seconds (1500 + k) (start (initial defaultSettings))
                 = (expired defaultSettings 1500)\<lparr>now := 1500 + k, timers := xs\<rparr>"
      by auto
    show ?thesis unfolding eq by (simp add: expired_def initial_def Let_def)
  qed
  show ?thesis using p [of 0] p [of 15] p [of 30] p [of 45] by (simp add: defaultSettings_def)
qed

text \<open>
  C2. The claim: once the reminder is cancelled no notification fires, also when a
  re-check was already armed. A work phase of one second expires at second 1; the
  settings are edited while the dialog is open, so the expiry effect runs again, in a
  render whose \<open>showDialog\<close> is \<open>true\<close>; at second 16 its timeout has started
  \<open>playNextReminder\<close>, which waits its 15 seconds. The dialog is dismissed then
  (\<open>handleDialogClose\<close>), and at second 31 the reminder plays all the same, with the dialog
  closed: the wait is not a timeout that \<open>reminderIntervalRef\<close> names, and the test after
  it reads the \<open>showDialog\<close> of the closure.
\<close>

theorem repeat_after_dismiss:
  "showDialog editedWhileOpen
   \<and> now editedWhileOpen = 16
   \<and> \<not> showDialog (dismiss editedWhileOpen)
   \<and> reminderIntervalRef (dismiss editedWhileOpen) = None
   \<and> played (dismiss editedWhileOpen) = [(1, WorkEnd, First), (1, WorkEnd, First)]
   \<and> \<not> showDialog (seconds 15 (dismiss editedWhileOpen))
   \<and> played (seconds 15 (dismiss editedWhileOpen))
       = [(1, WorkEnd, First), (1, WorkEnd, First), (31, WorkEnd, Repeat)]"
  by code_simp

text \<open>
  C3. The claim: a trigger that does not fit the state, such as acknowledge while idle,
  changes nothing. At the initial state \<open>handleDialogAction\<close> does change it: the phase
  becomes resting with the rest duration armed and the clock running.
\<close>

theorem acknowledge_at_idle_counterexample:
  "timerState (initial defaultSettings) = Idle
   \<and> acknowledge (initial defaultSettings) \<noteq> initial defaultSettings
   \<and> timerState (acknowledge (initial defaultSettings)) = Resting
   \<and> timeLeft (acknowledge (initial defaultSettings)) = 300
   \<and> isRunning (acknowledge (initial defaultSettings))"
  by code_simp

text \<open>
  C3, amended. In no run from the initial state is the dialog, which alone offers
  acknowledge, open while the phase is idle. Pause at idle with the clock stopped, and
  dismiss at idle with no reminder left, change nothing. \<open>handleDialogAction\<close> itself
  has no guard on the phase: called at idle it arms the rest duration and enters resting
  (or the work duration and working, by \<open>dialogType\<close>) and sets \<open>isRunning\<close>.
\<close>

theorem triggers_at_idle:
  "(showDialog (run es (initial st)) \<longrightarrow> timerState (run es (initial st)) \<noteq> Idle)
   \<and> (timerState s = Idle \<and> \<not> isRunning s \<longrightarrow> pause s = s)
   \<and> (timerState s = Idle \<and> \<not> isRunning s \<and> \<not> showDialog s \<and> reminderCount s = 0
        \<and> reminderIntervalRef s = None \<longrightarrow> dismiss s = s)
   \<and> (timerState s = Idle \<longrightarrow>
        timerState (acknowledge s) = (if dialogType s = DWork then Resting else Working)
        \<and> timeLeft (acknowledge s)
            = (if dialogType s = DWork
               then convertToSeconds (restDuration (settings s)) (restUnit (settings s))
               else convertToSeconds (workDuration (settings s)) (workUnit (settings s)))
        \<and> isRunning (handleDialogAction s)
        \<and> acknowledge s \<noteq> s)"
proof -
  have a: "showDialog (run es (initial st)) \<longrightarrow> timerState (run es (initial st)) \<noteq> Idle"
    using dialog_closed_at_idle [of es st] by blast
  have b: "timerState s = Idle \<and> \<not> isRunning s \<longrightarrow> pause s = s"
    by (simp add: pause_stopped)
  have c: "timerState s = Idle \<and> \<not> isRunning s \<and> \<not> showDialog s \<and> reminderCount s = 0
        \<and> reminderIntervalRef s = None \<longrightarrow> dismiss s = s"
    by (simp add: dismiss_closed)
  have d: "timerState s = Idle \<longrightarrow>
        timerState (acknowledge s) = (if dialogType s = DWork then Resting else Working)
        \<and> timeLeft (acknowledge s)
            = (if dialogType s = DWork
               then convertToSeconds (restDuration (settings s)) (restUnit (settings s))
               else convertToSeconds (workDuration (settings s)) (workUnit (settings s)))
        \<and> isRunning (handleDialogAction s)
        \<and> acknowledge s \<noteq> s"
  proof
    assume i: "timerState s = Idle"
    have f: "timerState (acknowledge s) = (if dialogType s = DWork then Resting else Working)"
      by (simp add: acknowledge_def settle_fields handleDialogAction_fields)
    then have "timerState (acknowledge s) \<noteq> timerState s" using i by simp
    then have "acknowledge s \<noteq> s" by auto
    with f show "timerState (acknowledge s) = (if dialogType s = DWork then Resting else Working)
        \<and> timeLeft (acknowledge s)
            = (if dialogType s = DWork
               then convertToSeconds (restDuration (settings s)) (restUnit (settings s))
               else convertToSeconds (workDuration (settings s)) (workUnit (settings s)))
        \<and> isRunning (handleDialogAction s)
        \<and> acknowledge s \<noteq> s"
      by (simp add: acknowledge_def settle_fields handleDialogAction_fields)
  qed
  show ?thesis by (rule conjI [OF a conjI [OF b conjI [OF c d]]])
qed

theorem triggers_at_idle_witness:
  "showDialog (run [Start, Second] (initial shortWork))
   \<and> timerState (run [Start, Second] (initial shortWork)) \<noteq> Idle
   \<and> timerState (initial defaultSettings) = Idle
   \<and> \<not> isRunning (initial defaultSettings)
   \<and> \<not> showDialog (initial defaultSettings)
   \<and> reminderCount (initial defaultSettings) = 0
   \<and> reminderIntervalRef (initial defaultSettings) = None
   \<and> pause (initial defaultSettings) = initial defaultSettings
   \<and> dismiss (initial defaultSettings) = initial defaultSettings
   \<and> timerState (acknowledge (initial defaultSettings)) = Resting
   \<and> acknowledge (initial defaultSettings) \<noteq> initial defaultSettings"
proof -
  have o: "showDialog (run [Start, Second] (initial shortWork))" by code_simp
  have i: "timerState (initial defaultSettings) = Idle \<and> \<not> isRunning (initial defaultSettings)
     \<and> \<not> showDialog (initial defaultSettings) \<and> reminderCount (initial defaultSettings) = 0
     \<and> reminderIntervalRef (initial defaultSettings) = None"
    by (simp add: initial_def)
  have dt: "dialogType (initial defaultSettings) = DWork" by (simp add: initial_def)
  note t = triggers_at_idle [of "[Start, Second]" shortWork "initial defaultSettings"]
  from t o have a: "timerState (run [Start, Second] (initial shortWork)) \<noteq> Idle" by blast
  from t i have b: "pause (initial defaultSettings) = initial defaultSettings
     \<and> dismiss (initial defaultSettings) = initial defaultSettings" by blast
  from t i have c: "timerState (acknowledge (initial defaultSettings))
       = (if dialogType (initial defaultSettings) = DWork then Resting else Working)
     \<and> acknowledge (initial defaultSettings) \<noteq> initial defaultSettings" by blast
  from o i a b c show ?thesis by (simp only: dt simp_thms if_True)
qed

text \<open>
  C4. The claim: the total of the progress is the duration captured when the phase was
  armed, so that an edit of the settings in mid-phase does not change the progress.
  With the default settings the work phase is armed with 1500 seconds and the progress
  is 0; after the work duration is edited to 50 minutes, with the same 1500 seconds
  left, the progress is 50 percent.
\<close>

theorem progress_snapshot_counterexample:
  "timeLeft (start (initial defaultSettings)) = 1500
   \<and> getProgressPercentage (start (initial defaultSettings)) = Some 0
   \<and> timerState (editSettings (onWorkDurationInput (Some 50)) (start (initial defaultSettings))) = Working
   \<and> timeLeft (editSettings (onWorkDurationInput (Some 50)) (start (initial defaultSettings))) = 1500
   \<and> getProgressPercentage (editSettings (onWorkDurationInput (Some 50)) (start (initial defaultSettings)))
       = Some 50"
  by code_simp

text \<open>
  C4, amended. The progress, as a percentage, is 0 at idle and otherwise
  \<open>(totalTime - timeLeft) / totalTime * 100\<close>, where \<open>totalTime\<close> is read from the current
  settings for the current phase (no duration is stored when a phase is armed): after an
  edit it is computed from the edited settings. While the settings are not edited it is
  the share of the armed work duration that has run: \<open>k / n * 100\<close> after \<open>k \<le> n\<close> seconds
  of a work phase of \<open>n > 0\<close> seconds.
\<close>

theorem progress_from_live_settings:
  "(timerState s = Idle \<longrightarrow> getProgressPercentage s = Some 0)
   \<and> (timerState s \<noteq> Idle \<and> totalTime s \<noteq> 0 \<longrightarrow>
        getProgressPercentage s
          = Some (of_int (totalTime s - timeLeft s) / of_int (totalTime s) * 100))
   \<and> totalTime (editSettings f s) = totalTime (s\<lparr>settings := f (settings s)\<rparr>)
   \<and> getProgressPercentage (editSettings f s)
       = getProgressPercentage (s\<lparr>settings := f (settings s)\<rparr>)
   \<and> (0 < convertToSeconds (workDuration st) (workUnit st)
        \<and> int k \<le> convertToSeconds (workDuration st) (workUnit st) \<longrightarrow>
        getProgressPercentage (seconds k (start (initial st)))
          = Some (of_nat k / of_int (convertToSeconds (workDuration st) (workUnit st)) * 100))"
proof -
  have a: "timerState s = Idle \<longrightarrow> getProgressPercentage s = Some 0"
    by (simp add: getProgressPercentage_def)
  have b: "timerState s \<noteq> Idle \<and> totalTime s \<noteq> 0 \<longrightarrow>
        getProgressPercentage s
          = Some (of_int (totalTime s - timeLeft s) / of_int (totalTime s) * 100)"
    by (simp add: getProgressPercentage_def)
  have c: "totalTime (editSettings f s) = totalTime (s\<lparr>settings := f (settings s)\<rparr>)"
    by (simp add: totalTime_def editSettings_def settle_fields)
  have d: "getProgressPercentage (editSettings f s)
       = getProgressPercentage (s\<lparr>settings := f (settings s)\<rparr>)"
    unfolding getProgressPercentage_def c
    by (simp add: editSettings_def settle_fields)
  have e: "0 < convertToSeconds (workDuration st) (workUnit st)
        \<and> int k \<le> convertToSeconds (workDuration st) (workUnit st) \<longrightarrow>
        getProgressPercentage (seconds k (start (initial st)))
          = Some (of_nat k / of_int (convertToSeconds (workDuration st) (workUnit st)) * 100)"
  proof
    let ?n = "convertToSeconds (workDuration st) (workUnit st)"
    assume h: "0 < ?n \<and> int k \<le> ?n"
    show "getProgressPercentage (seconds k (start (initial st))) = Some (of_nat k / of_int ?n * 100)"
    proof (cases "int k < ?n")
      case True
      have eq: "seconds k (start (initial st)) = counting st (?n - int k) k"
        using seconds_counting [OF True, of st 0] h by (simp add: start_initial)
      show ?thesis unfolding eq using h
        by (simp add: getProgressPercentage_def totalTime_def counting_def initial_def)
    next
      case False
      with h have k: "k = nat ?n" by linarith
      have eq: "seconds k (start (initial st)) = expired st k"
        unfolding k using start_to_expiry [of st] h by simp
      have "of_int ?n = (of_nat k :: rat)" using k h by simp
      then show ?thesis unfolding eq using h
        by (simp add: getProgressPercentage_def totalTime_def expired_def initial_def Let_def)
    qed
  qed
  show ?thesis by (rule conjI [OF a conjI [OF b conjI [OF c conjI [OF d e]]]])
qed

theorem progress_from_live_settings_witness:
  "timerState (initial defaultSettings) = Idle
   \<and> getProgressPercentage (initial defaultSettings) = Some 0
   \<and> timerState (start (initial shortWork)) \<noteq> Idle
   \<and> totalTime (start (initial shortWork)) \<noteq> 0
   \<and> getProgressPercentage (start (initial shortWork)) = Some 0
   \<and> 0 < convertToSeconds (workDuration shortWork) (workUnit shortWork)
   \<and> int 1 \<le> convertToSeconds (workDuration shortWork) (workUnit shortWork)
   \<and> getProgressPercentage (seconds 1 (start (initial shortWork))) = Some 100"
proof -
  have i: "timerState (initial defaultSettings) = Idle" by (simp add: initial_def)
  have w: "timerState (start (initial shortWork)) \<noteq> Idle \<and> totalTime (start (initial shortWork)) \<noteq> 0"
    by code_simp
  have v: "totalTime (start (initial shortWork)) = 1" "timeLeft (start (initial shortWork)) = 1"
    by code_simp+
  have n: "0 < convertToSeconds (workDuration shortWork) (workUnit shortWork)
     \<and> int 1 \<le> convertToSeconds (workDuration shortWork) (workUnit shortWork)"
    by (simp add: shortWork_seconds)
  from progress_from_live_settings [of "initial defaultSettings"] i
  have a: "getProgressPercentage (initial defaultSettings) = Some 0" by blast
  from progress_from_live_settings [of "start (initial shortWork)"] w
  have b: "getProgressPercentage (start (initial shortWork))
           = Some (of_int (totalTime (start (initial shortWork)) - timeLeft (start (initial shortWork)))
                   / of_int (totalTime (start (initial shortWork))) * 100)"
    by blast
  from progress_from_live_settings [of _ _ shortWork 1] n
  have c: "getProgressPercentage (seconds 1 (start (initial shortWork)))
           = Some (of_nat 1 / of_int (convertToSeconds (workDuration shortWork) (workUnit shortWork)) * 100)"
    by blast
  from i w n a b c show ?thesis by (simp add: v shortWork_seconds)
qed

text \<open>
  C5. The claim: acknowledge at a working phase with an active reminder cancels the
  reminder, enters resting with the rest duration armed, and starts the clock. At the
  state 15 seconds after a settings edit under the open dialog of an expired work phase,
  acknowledge does enter resting with 300 seconds and the clock running, closes the
  dialog, zeroes the reminder count and empties \<open>reminderIntervalRef\<close> (at an ordinary
  expiry that drops the one pending timeout); but the wait inside
  \<open>playNextReminder\<close> stays pending, and the reminder of the work phase plays at seconds
  31 and 46, during the rest, with the reminder count back at 2.
\<close>

theorem acknowledge_leaves_wait_pending:
  "map handle (timers (second (start (initial shortWork)))) = [1]
   \<and> reminderIntervalRef (second (start (initial shortWork))) = Some 1
   \<and> timers (handleDialogAction (second (start (initial shortWork)))) = []
   \<and> timerState editedWhileOpen = Working
   \<and> showDialog editedWhileOpen
   \<and> dialogType editedWhileOpen = DWork
   \<and> timeLeft editedWhileOpen = 0
   \<and> now editedWhileOpen = 16
   \<and> timerState (acknowledge editedWhileOpen) = Resting
   \<and> timeLeft (acknowledge editedWhileOpen) = 300
   \<and> isRunning (acknowledge editedWhileOpen)
   \<and> \<not> showDialog (acknowledge editedWhileOpen)
   \<and> reminderCount (acknowledge editedWhileOpen) = 0
   \<and> reminderIntervalRef (acknowledge editedWhileOpen) = None
   \<and> map stage (timers (acknowledge editedWhileOpen)) = [Resume]
   \<and> played (acknowledge editedWhileOpen) = [(1, WorkEnd, First), (1, WorkEnd, First)]
   \<and> timerState (seconds 30 (acknowledge editedWhileOpen)) = Resting
   \<and> timeLeft (seconds 30 (acknowledge editedWhileOpen)) = 270
   \<and> \<not> showDialog (seconds 30 (acknowledge editedWhileOpen))
   \<and> reminderCount (seconds 30 (acknowledge editedWhileOpen)) = 2
   \<and> played (seconds 30 (acknowledge editedWhileOpen))
       = [(1, WorkEnd, First), (1, WorkEnd, First), (31, WorkEnd, Repeat), (46, WorkEnd, Repeat)]"
  by code_simp

text \<open>
  C6. The claim: reset from any phase, reminder active or not, gives idle, no time
  left, the reminder inactive and the clock stopped. At the same state as for C5, reset
  gives the idle phase with no time left, the dialog closed, reminder count 0 and the
  clock stopped, and \<open>clearInterval(reminderIntervalRef.current)\<close>, which at an ordinary
  expiry drops the one pending timeout, finds nothing to clear:
  the wait inside \<open>playNextReminder\<close> stays pending, and the reminder plays at seconds 31
  and 46, at idle, with the reminder count back at 2.
\<close>

theorem reset_leaves_wait_pending:
  "map handle (timers (second (start (initial shortWork)))) = [1]
   \<and> reminderIntervalRef (second (start (initial shortWork))) = Some 1
   \<and> timers (resetTimer (second (start (initial shortWork)))) = []
   \<and> showDialog editedWhileOpen
   \<and> now editedWhileOpen = 16
   \<and> timerState (reset editedWhileOpen) = Idle
   \<and> timeLeft (reset editedWhileOpen) = 0
   \<and> \<not> isRunning (reset editedWhileOpen)
   \<and> \<not> showDialog (reset editedWhileOpen)
   \<and> reminderCount (reset editedWhileOpen) = 0
   \<and> reminderIntervalRef (reset editedWhileOpen) = None
   \<and> map stage (timers (reset editedWhileOpen)) = [Resume]
   \<and> played (reset editedWhileOpen) = [(1, WorkEnd, First), (1, WorkEnd, First)]
   \<and> timerState (seconds 30 (reset editedWhileOpen)) = Idle
   \<and> \<not> showDialog (seconds 30 (reset editedWhileOpen))
   \<and> reminderCount (seconds 30 (reset editedWhileOpen)) = 2
   \<and> played (seconds 30 (reset editedWhileOpen))
       = [(1, WorkEnd, First), (1, WorkEnd, First), (31, WorkEnd, Repeat), (46, WorkEnd, Repeat)]"
  by code_simp

text \<open>
  C7. Arming a phase of 0 seconds opens the reminder dialog in the same step, with its
  first notification and without a tick: for start at idle, and for acknowledge into a
  rest or a work phase of no length.
\<close>

theorem zero_length_phase_expires_at_once:
  "(timerState s = Idle \<and> convertToSeconds (workDuration (settings s)) (workUnit (settings s)) = 0
      \<longrightarrow> showDialog (start s) \<and> dialogType (start s) = DWork \<and> timerState (start s) = Working
          \<and> timeLeft (start s) = 0 \<and> \<not> isRunning (start s) \<and> \<not> intervalOn (start s)
          \<and> now (start s) = now s
          \<and> played (start s) = played s @ [(now s, WorkEnd, First)])
   \<and> (timerState s = Working \<and> dialogType s = DWork
        \<and> convertToSeconds (restDuration (settings s)) (restUnit (settings s)) = 0
      \<longrightarrow> showDialog (acknowledge s) \<and> dialogType (acknowledge s) = DRest
          \<and> timerState (acknowledge s) = Resting
          \<and> timeLeft (acknowledge s) = 0 \<and> \<not> isRunning (acknowledge s) \<and> \<not> intervalOn (acknowledge s)
          \<and> now (acknowledge s) = now s
          \<and> played (acknowledge s) = played s @ [(now s, RestEnd, First)])
   \<and> (timerState s = Resting \<and> dialogType s = DRest
        \<and> convertToSeconds (workDuration (settings s)) (workUnit (settings s)) = 0
      \<longrightarrow> showDialog (acknowledge s) \<and> dialogType (acknowledge s) = DWork
          \<and> timerState (acknowledge s) = Working
          \<and> timeLeft (acknowledge s) = 0 \<and> \<not> isRunning (acknowledge s) \<and> \<not> intervalOn (acknowledge s)
          \<and> now (acknowledge s) = now s
          \<and> played (acknowledge s) = played s @ [(now s, WorkEnd, First)])"
proof -
  have one: "timerState s = Idle \<and> convertToSeconds (workDuration (settings s)) (workUnit (settings s)) = 0
      \<longrightarrow> showDialog (start s) \<and> dialogType (start s) = DWork \<and> timerState (start s) = Working
          \<and> timeLeft (start s) = 0 \<and> \<not> isRunning (start s) \<and> \<not> intervalOn (start s)
          \<and> now (start s) = now s
          \<and> played (start s) = played s @ [(now s, WorkEnd, First)]"
  proof
    assume a: "timerState s = Idle
      \<and> convertToSeconds (workDuration (settings s)) (workUnit (settings s)) = 0"
    then have e: "expiring s False (startTimer s)"
      by (simp add: expiring_def startTimer_fields)
    show "showDialog (start s) \<and> dialogType (start s) = DWork \<and> timerState (start s) = Working
          \<and> timeLeft (start s) = 0 \<and> \<not> isRunning (start s) \<and> \<not> intervalOn (start s)
          \<and> now (start s) = now s
          \<and> played (start s) = played s @ [(now s, WorkEnd, First)]"
      using a e by (simp add: start_def settle_fields startTimer_fields)
  qed
  have two: "timerState s = Working \<and> dialogType s = DWork
        \<and> convertToSeconds (restDuration (settings s)) (restUnit (settings s)) = 0
      \<longrightarrow> showDialog (acknowledge s) \<and> dialogType (acknowledge s) = DRest
          \<and> timerState (acknowledge s) = Resting
          \<and> timeLeft (acknowledge s) = 0 \<and> \<not> isRunning (acknowledge s) \<and> \<not> intervalOn (acknowledge s)
          \<and> now (acknowledge s) = now s
          \<and> played (acknowledge s) = played s @ [(now s, RestEnd, First)]"
  proof
    assume a: "timerState s = Working \<and> dialogType s = DWork
        \<and> convertToSeconds (restDuration (settings s)) (restUnit (settings s)) = 0"
    then have e: "expiring s False (handleDialogAction s)"
      by (simp add: expiring_def handleDialogAction_fields)
    show "showDialog (acknowledge s) \<and> dialogType (acknowledge s) = DRest
          \<and> timerState (acknowledge s) = Resting
          \<and> timeLeft (acknowledge s) = 0 \<and> \<not> isRunning (acknowledge s) \<and> \<not> intervalOn (acknowledge s)
          \<and> now (acknowledge s) = now s
          \<and> played (acknowledge s) = played s @ [(now s, RestEnd, First)]"
      using a e by (simp add: acknowledge_def settle_fields handleDialogAction_fields)
  qed
  have three: "timerState s = Resting \<and> dialogType s = DRest
        \<and> convertToSeconds (workDuration (settings s)) (workUnit (settings s)) = 0
      \<longrightarrow> showDialog (acknowledge s) \<and> dialogType (acknowledge s) = DWork
          \<and> timerState (acknowledge s) = Working
          \<and> timeLeft (acknowledge s) = 0 \<and> \<not> isRunning (acknowledge s) \<and> \<not> intervalOn (acknowledge s)
          \<and> now (acknowledge s) = now s
          \<and> played (acknowledge s) = played s @ [(now s, WorkEnd, First)]"
  proof
    assume a: "timerState s = Resting \<and> dialogType s = DRest
        \<and> convertToSeconds (workDuration (settings s)) (workUnit (settings s)) = 0"
    then have e: "expiring s False (handleDialogAction s)"
      by (simp add: expiring_def handleDialogAction_fields)
    show "showDialog (acknowledge s) \<and> dialogType (acknowledge s) = DWork
          \<and> timerState (acknowledge s) = Working
          \<and> timeLeft (acknowledge s) = 0 \<and> \<not> isRunning (acknowledge s) \<and> \<not> intervalOn (acknowledge s)
          \<and> now (acknowledge s) = now s
          \<and> played (acknowledge s) = played s @ [(now s, WorkEnd, First)]"
      using a e by (simp add: acknowledge_def settle_fields handleDialogAction_fields)
  qed
  show ?thesis by (rule conjI [OF one conjI [OF two three]])
qed

theorem zero_length_phase_expires_at_once_witness:
  "timerState (initial noTime) = Idle
   \<and> convertToSeconds (workDuration (settings (initial noTime))) (workUnit (settings (initial noTime))) = 0
   \<and> showDialog (start (initial noTime))
   \<and> played (start (initial noTime)) = [(0, WorkEnd, First)]
   \<and> timerState (start (initial noTime)) = Working
   \<and> showDialog (acknowledge (start (initial noTime)))
   \<and> played (acknowledge (start (initial noTime))) = [(0, WorkEnd, First), (0, RestEnd, First)]
   \<and> timerState (acknowledge (start (initial noTime))) = Resting
   \<and> showDialog (acknowledge (acknowledge (start (initial noTime))))
   \<and> played (acknowledge (acknowledge (start (initial noTime))))
       = [(0, WorkEnd, First), (0, RestEnd, First), (0, WorkEnd, First)]"
proof -
  let ?a = "initial noTime"
  let ?b = "start (initial noTime)"
  let ?c = "acknowledge (start (initial noTime))"
  have p1: "timerState ?a = Idle
     \<and> convertToSeconds (workDuration (settings ?a)) (workUnit (settings ?a)) = 0" by code_simp
  have p2: "timerState ?b = Working \<and> dialogType ?b = DWork
     \<and> convertToSeconds (restDuration (settings ?b)) (restUnit (settings ?b)) = 0" by code_simp
  have p3: "timerState ?c = Resting \<and> dialogType ?c = DRest
     \<and> convertToSeconds (workDuration (settings ?c)) (workUnit (settings ?c)) = 0" by code_simp
  have q: "now ?a = 0" "played ?a = []" by (simp_all add: initial_def)
  from zero_length_phase_expires_at_once [of ?a] p1
  have c1: "showDialog ?b \<and> now ?b = now ?a \<and> played ?b = played ?a @ [(now ?a, WorkEnd, First)]"
    by blast
  from zero_length_phase_expires_at_once [of ?b] p2
  have c2: "showDialog ?c \<and> now ?c = now ?b \<and> played ?c = played ?b @ [(now ?b, RestEnd, First)]"
    by blast
  from zero_length_phase_expires_at_once [of ?c] p3
  have c3: "showDialog (acknowledge ?c)
     \<and> played (acknowledge ?c) = played ?c @ [(now ?c, WorkEnd, First)]"
    by blast
  from p1 p2 p3 c1 c2 c3 show ?thesis by (simp add: q)
qed

text \<open>
  C8. The claim: every missing or invalid field falls back to its default. A saved
  \<open>workReminders\<close> of \<open>-1\<close> (not a count of at least 1) and a saved \<open>workUnit\<close> of
  \<open>"weeks"\<close> (not a time unit) are loaded as they are.
\<close>

theorem load_keeps_invalid_counterexample:
  "getProp (loadSettings (Parsed (JObj [(''workReminders'', JNum (- 1)), (''workUnit'', JStr ''weeks'')])))
     ''workReminders'' = JNum (- 1)
   \<and> getProp (loadSettings (Parsed (JObj [(''workReminders'', JNum (- 1)), (''workUnit'', JStr ''weeks'')])))
     ''workUnit'' = JStr ''weeks''"
  by (simp add: orDefault_def)

text \<open>
  C8, amended. Loading never fails: with no saved item, with one that cannot be read
  or parsed, and with a saved \<open>null\<close> the settings are the defaults (work 25 minutes,
  rest 5 minutes, 3 reminders each). Of a parsed value every field that is missing or
  falsy (\<open>undefined\<close>, \<open>null\<close>, \<open>false\<close>, \<open>0\<close>, the empty string) gets its default, and every
  truthy field is taken as it is, valid or not; so every loaded field is truthy.
\<close>

theorem load_falls_back_on_falsy:
  "loadSettings Missing = defaultObject
   \<and> loadSettings Malformed = defaultObject
   \<and> loadSettings (Parsed JNull) = defaultObject
   \<and> ((name, d) \<in> set defaultFields \<longrightarrow>
        truthy (getProp (loadSettings sv) name)
        \<and> (\<not> truthy (getProp v name) \<longrightarrow> getProp (loadSettings (Parsed v)) name = d)
        \<and> (truthy (getProp v name) \<longrightarrow> getProp (loadSettings (Parsed v)) name = getProp v name))"
proof -
  have a: "(name, d) \<in> set defaultFields \<longrightarrow>
        truthy (getProp (loadSettings sv) name)
        \<and> (\<not> truthy (getProp v name) \<longrightarrow> getProp (loadSettings (Parsed v)) name = d)
        \<and> (truthy (getProp v name) \<longrightarrow> getProp (loadSettings (Parsed v)) name = getProp v name)"
  proof
    assume m: "(name, d) \<in> set defaultFields"
    note df = default_field [OF m]
    have val: "getProp (loadSettings (Parsed w)) name
                 = (if truthy (getProp w name) then getProp w name else d)" for w
    proof (cases "w = JNull \<or> w = JUndefined")
      case True
      then show ?thesis using df(1) by auto
    next
      case False
      then show ?thesis using loaded_field [OF m, of w] by (simp add: orDefault_def)
    qed
    have "truthy (getProp (loadSettings sv) name)"
    proof (cases sv)
      case Missing
      then show ?thesis using df by simp
    next
      case Malformed
      then show ?thesis using df by simp
    next
      case (Parsed w)
      then show ?thesis using val [of w] df(2) by simp
    qed
    then show "truthy (getProp (loadSettings sv) name)
        \<and> (\<not> truthy (getProp v name) \<longrightarrow> getProp (loadSettings (Parsed v)) name = d)
        \<and> (truthy (getProp v name) \<longrightarrow> getProp (loadSettings (Parsed v)) name = getProp v name)"
      using val [of v] by simp
  qed
  show ?thesis using a by simp
qed

theorem load_falls_back_on_falsy_witness:
  "(''workReminders'', JNum 3) \<in> set defaultFields
   \<and> truthy (getProp (loadSettings Malformed) ''workReminders'')
   \<and> \<not> truthy (getProp (JObj [(''workReminders'', JNum 0)]) ''workReminders'')
   \<and> getProp (loadSettings (Parsed (JObj [(''workReminders'', JNum 0)]))) ''workReminders'' = JNum 3
   \<and> truthy (getProp (JObj [(''workReminders'', JNum 7)]) ''workReminders'')
   \<and> getProp (loadSettings (Parsed (JObj [(''workReminders'', JNum 7)]))) ''workReminders'' = JNum 7"
proof -
  have m: "(''workReminders'', JNum 3) \<in> set defaultFields" by (simp add: defaultFields_def)
  have f: "\<not> truthy (getProp (JObj [(''workReminders'', JNum 0)]) ''workReminders'')" by simp
  have g: "getProp (JObj [(''workReminders'', JNum 7)]) ''workReminders'' = JNum 7" by simp
  have t: "truthy (getProp (JObj [(''workReminders'', JNum 7)]) ''workReminders'')" by simp
  from load_falls_back_on_falsy [of "''workReminders''" "JNum 3" Malformed
      "JObj [(''workReminders'', JNum 0)]"] m f
  have one: "truthy (getProp (loadSettings Malformed) ''workReminders'')
    \<and> getProp (loadSettings (Parsed (JObj [(''workReminders'', JNum 0)]))) ''workReminders'' = JNum 3"
    by blast
  from load_falls_back_on_falsy [of "''workReminders''" "JNum 3" Malformed
      "JObj [(''workReminders'', JNum 7)]"] m t
  have two: "getProp (loadSettings (Parsed (JObj [(''workReminders'', JNum 7)]))) ''workReminders''
               = getProp (JObj [(''workReminders'', JNum 7)]) ''workReminders''"
    by blast
  from m f t one two g show ?thesis by (simp only: simp_thms)
qed

text \<open>
  C9. The claim: after start and as many ticks as the work duration the reminder is
  entered exactly once, and never a second time while no time is left. A work phase of
  one second expires at second 1; the dialog is dismissed and the settings are stored
  again: the dialog is open again and the first reminder has played twice, with no time
  left throughout.
\<close>

theorem second_entry_after_edit_counterexample:
  "timeLeft (run [Start, Second] (initial shortWork)) = 0
   \<and> played (run [Start, Second] (initial shortWork)) = [(1, WorkEnd, First)]
   \<and> timeLeft (run [Start, Second, Dismiss] (initial shortWork)) = 0
   \<and> timeLeft (run [Start, Second, Dismiss, Edit shortWork] (initial shortWork)) = 0
   \<and> timerState (run [Start, Second, Dismiss, Edit shortWork] (initial shortWork)) = Working
   \<and> showDialog (run [Start, Second, Dismiss, Edit shortWork] (initial shortWork))
   \<and> played (run [Start, Second, Dismiss, Edit shortWork] (initial shortWork))
       = [(1, WorkEnd, First), (1, WorkEnd, First)]"
  by code_simp

text \<open>
  C9, amended. From the initial state with a work duration of \<open>n \<ge> 0\<close> seconds: before
  the \<open>n\<close>-th tick after the start there is time left, no dialog and no notification;
  after exactly \<open>n\<close> ticks, and after any number of further seconds, no time is left,
  the phase is still working with the clock stopped and the dialog open, and the
  notifications are the single one of the expiry at second \<open>n\<close>. In any state with no
  time left and a phase that is not idle, pause, dismiss and start play nothing and a
  second that passes enters the reminder no further time; an edit of the settings does:
  the expiry effect depends on the settings and tests the state, so it opens the dialog
  and plays the first reminder again.
\<close>

theorem expiry_entered_once_unless_edited:
  "(0 \<le> convertToSeconds (workDuration st) (workUnit st) \<longrightarrow>
      (\<forall>j < nat (convertToSeconds (workDuration st) (workUnit st)).
            played (seconds j (start (initial st))) = []
            \<and> \<not> showDialog (seconds j (start (initial st)))
            \<and> 0 < timeLeft (seconds j (start (initial st))))
      \<and> (\<forall>k. timeLeft (seconds (nat (convertToSeconds (workDuration st) (workUnit st)) + k) (start (initial st))) = 0
              \<and> timerState (seconds (nat (convertToSeconds (workDuration st) (workUnit st)) + k) (start (initial st))) = Working
              \<and> showDialog (seconds (nat (convertToSeconds (workDuration st) (workUnit st)) + k) (start (initial st)))
              \<and> \<not> isRunning (seconds (nat (convertToSeconds (workDuration st) (workUnit st)) + k) (start (initial st)))
              \<and> played (seconds (nat (convertToSeconds (workDuration st) (workUnit st)) + k) (start (initial st)))
                  = [(nat (convertToSeconds (workDuration st) (workUnit st)), WorkEnd, First)]))
   \<and> (timeLeft s = 0 \<and> timerState s \<noteq> Idle \<longrightarrow>
        played (pause s) = played s
        \<and> played (dismiss s) = played s
        \<and> played (start s) = played s
        \<and> entries (second s) = entries s
        \<and> timeLeft (editSettings f s) = 0
        \<and> showDialog (editSettings f s)
        \<and> played (editSettings f s)
            = played s @ [(now s, if timerState s = Working then WorkEnd else RestEnd, First)]
        \<and> entries (editSettings f s) = entries s + 1)"
proof -
  have a: "0 \<le> convertToSeconds (workDuration st) (workUnit st) \<longrightarrow>
      (\<forall>j < nat (convertToSeconds (workDuration st) (workUnit st)).
            played (seconds j (start (initial st))) = []
            \<and> \<not> showDialog (seconds j (start (initial st)))
            \<and> 0 < timeLeft (seconds j (start (initial st))))
      \<and> (\<forall>k. timeLeft (seconds (nat (convertToSeconds (workDuration st) (workUnit st)) + k) (start (initial st))) = 0
              \<and> timerState (seconds (nat (convertToSeconds (workDuration st) (workUnit st)) + k) (start (initial st))) = Working
              \<and> showDialog (seconds (nat (convertToSeconds (workDuration st) (workUnit st)) + k) (start (initial st)))
              \<and> \<not> isRunning (seconds (nat (convertToSeconds (workDuration st) (workUnit st)) + k) (start (initial st)))
              \<and> played (seconds (nat (convertToSeconds (workDuration st) (workUnit st)) + k) (start (initial st)))
                  = [(nat (convertToSeconds (workDuration st) (workUnit st)), WorkEnd, First)])"
  proof (intro impI conjI allI)
    fix j
    assume j: "j < nat (convertToSeconds (workDuration st) (workUnit st))"
    then have pos: "0 < convertToSeconds (workDuration st) (workUnit st)" by simp
    have lt: "int j < convertToSeconds (workDuration st) (workUnit st)" using j by simp
    have eq: "seconds j (start (initial st))
          = counting st (convertToSeconds (workDuration st) (workUnit st) - int j) j"
      using seconds_counting [OF lt, of st 0] by (simp add: start_initial [OF pos])
    show "played (seconds j (start (initial st))) = []"
      unfolding eq by (simp add: counting_def initial_def)
    show "\<not> showDialog (seconds j (start (initial st)))"
      unfolding eq by (simp add: counting_def initial_def)
    show "0 < timeLeft (seconds j (start (initial st)))"
      unfolding eq using lt by (simp add: counting_def initial_def)
  next
    fix k
    assume n: "0 \<le> convertToSeconds (workDuration st) (workUnit st)"
    let ?n = "nat (convertToSeconds (workDuration st) (workUnit st))"
    from after_expiry [OF n, of k] obtain xs
      where eq: "seconds (?n + k) (start (initial st)) = (expired st ?n)\<lparr>now := ?n + k, timers := xs\<rparr>"
      by blast
    show "timeLeft (seconds (?n + k) (start (initial st))) = 0"
      unfolding eq by (simp add: expired_def initial_def Let_def)
    show "timerState (seconds (?n + k) (start (initial st))) = Working"
      unfolding eq by (simp add: expired_def initial_def Let_def)
    show "showDialog (seconds (?n + k) (start (initial st)))"
      unfolding eq by (simp add: expired_def initial_def Let_def)
    show "\<not> isRunning (seconds (?n + k) (start (initial st)))"
      unfolding eq by (simp add: expired_def initial_def Let_def)
    show "played (seconds (?n + k) (start (initial st))) = [(?n, WorkEnd, First)]"
      unfolding eq by (simp add: expired_def initial_def Let_def)
  qed
  have b: "timeLeft s = 0 \<and> timerState s \<noteq> Idle \<longrightarrow>
        played (pause s) = played s
        \<and> played (dismiss s) = played s
        \<and> played (start s) = played s
        \<and> entries (second s) = entries s
        \<and> timeLeft (editSettings f s) = 0
        \<and> showDialog (editSettings f s)
        \<and> played (editSettings f s)
            = played s @ [(now s, if timerState s = Working then WorkEnd else RestEnd, First)]
        \<and> entries (editSettings f s) = entries s + 1"
  proof
    assume h: "timeLeft s = 0 \<and> timerState s \<noteq> Idle"
    then have z: "timeLeft s = 0" and w: "timerState s \<noteq> Idle" by simp_all
    note e = edit_enters_again [OF z w, of f]
    have "entries (editSettings f s) = entries s + 1"
      unfolding entries_def e(3) by simp
    with e show "played (pause s) = played s
        \<and> played (dismiss s) = played s
        \<and> played (start s) = played s
        \<and> entries (second s) = entries s
        \<and> timeLeft (editSettings f s) = 0
        \<and> showDialog (editSettings f s)
        \<and> played (editSettings f s)
            = played s @ [(now s, if timerState s = Working then WorkEnd else RestEnd, First)]
        \<and> entries (editSettings f s) = entries s + 1"
      by (simp add: played_pause played_dismiss played_start_running [OF w]
          entries_second_expired [OF z])
  qed
  show ?thesis by (rule conjI [OF a b])
qed

theorem expiry_entered_once_unless_edited_witness:
  "0 \<le> convertToSeconds (workDuration shortWork) (workUnit shortWork)
   \<and> played (seconds 0 (start (initial shortWork))) = []
   \<and> 0 < timeLeft (seconds 0 (start (initial shortWork)))
   \<and> timeLeft (seconds (1 + 20) (start (initial shortWork))) = 0
   \<and> showDialog (seconds (1 + 20) (start (initial shortWork)))
   \<and> played (seconds (1 + 20) (start (initial shortWork))) = [(1, WorkEnd, First)]
   \<and> timeLeft (run [Start, Second, Dismiss] (initial shortWork)) = 0
   \<and> timerState (run [Start, Second, Dismiss] (initial shortWork)) \<noteq> Idle
   \<and> played (pause (run [Start, Second, Dismiss] (initial shortWork))) = [(1, WorkEnd, First)]
   \<and> entries (second (run [Start, Second, Dismiss] (initial shortWork))) = 1
   \<and> showDialog (editSettings (onRestRemindersInput (Some 5)) (run [Start, Second, Dismiss] (initial shortWork)))
   \<and> entries (editSettings (onRestRemindersInput (Some 5)) (run [Start, Second, Dismiss] (initial shortWork))) = 2"
proof -
  let ?s = "run [Start, Second, Dismiss] (initial shortWork)"
  have h: "0 \<le> convertToSeconds (workDuration shortWork) (workUnit shortWork)"
    by (simp add: shortWork_seconds)
  have g: "timeLeft ?s = 0 \<and> timerState ?s \<noteq> Idle" by code_simp
  have p: "played ?s = [(1, WorkEnd, First)]" by code_simp
  have c: "entries ?s = 1" by (simp add: entries_def p)
  note t = expiry_entered_once_unless_edited
    [of shortWork ?s "onRestRemindersInput (Some 5)", unfolded shortWork_seconds]
  have h1: "(0::int) \<le> 1" and j0: "(0::nat) < nat 1" by simp_all
  from t h1 j0 have a: "played (seconds 0 (start (initial shortWork))) = []
      \<and> 0 < timeLeft (seconds 0 (start (initial shortWork)))"
    by blast
  from t h1 have b: "timeLeft (seconds (nat 1 + 20) (start (initial shortWork))) = 0
      \<and> showDialog (seconds (nat 1 + 20) (start (initial shortWork)))
      \<and> played (seconds (nat 1 + 20) (start (initial shortWork))) = [(nat 1, WorkEnd, First)]"
    by blast
  from t g have d: "played (pause ?s) = played ?s
      \<and> entries (second ?s) = entries ?s
      \<and> showDialog (editSettings (onRestRemindersInput (Some 5)) ?s)
      \<and> entries (editSettings (onRestRemindersInput (Some 5)) ?s) = entries ?s + 1"
    by blast
  from h g a b d show ?thesis by (simp add: p c)
qed


end
